theory Spec2Isabelle
  imports Complex_Main "HOL-Library.Product_Lexorder" "HOL-Library.Multiset"
begin

section \<open>Data model of privacy\_service.py\<close>

text \<open>
  A Python string is a \<open>string\<close>, a list of characters, one per code point. What the
  code takes from the standard library on strings (\<open>str.lower\<close>, the HMAC digest, the
  compiled patterns) is not coded here: it is a field of \<open>capabilities\<close>, and the
  theorems hold for every value of it. Offsets are Python ints (\<open>int\<close>). The confidences
  and thresholds are the decimal literals of the source, read as the real numbers they
  denote: the code only compares and negates them.
\<close>

datatype PrivacyLevel = MINIMAL | STANDARD | STRICT

datatype EntityType =
    PERSON | EMAIL | PHONE | CREDIT_CARD | SSN | ADDRESS
  | ORGANIZATION | LOCATION | DATE | TIME | MONEY | PERCENT

text \<open>\<open>EntityType.value\<close>: the string each member of the enum carries.\<close>

fun entity_value :: "EntityType \<Rightarrow> string" where
  "entity_value PERSON = ''PERSON''"
| "entity_value EMAIL = ''EMAIL''"
| "entity_value PHONE = ''PHONE''"
| "entity_value CREDIT_CARD = ''CREDIT_CARD''"
| "entity_value SSN = ''SSN''"
| "entity_value ADDRESS = ''ADDRESS''"
| "entity_value ORGANIZATION = ''ORG''"
| "entity_value LOCATION = ''GPE''"
| "entity_value DATE = ''DATE''"
| "entity_value TIME = ''TIME''"
| "entity_value MONEY = ''MONEY''"
| "entity_value PERCENT = ''PERCENT''"

text \<open>\<open>list(EntityType)\<close>: the members in definition order.\<close>

definition all_entity_types :: "EntityType list" where
  "all_entity_types =
     [PERSON, EMAIL, PHONE, CREDIT_CARD, SSN, ADDRESS,
      ORGANIZATION, LOCATION, DATE, TIME, MONEY, PERCENT]"

record SensitiveSpan =
  span_text :: string
  span_start :: int
  span_end :: int
  entity_type :: EntityType
  confidence :: real
  replacement :: string

text \<open>The exceptions that pass through the code. \<open>OtherError\<close> stands for any other
  exception, with its message.\<close>

datatype error =
    JSONDecodeError
  | UnicodeDecodeError
  | IsADirectoryError
  | PermissionError
  | KeyError string
  | OtherError string
  | HTTPException nat string

text \<open>
  The file \<open>token_map.json\<close> as \<open>load_token_map\<close> finds it: absent
  (\<open>FileNotFoundError\<close>, the one exception the method catches); not readable, \<open>open\<close> or
  \<open>json.load\<close> raising the given exception; holding a JSON object whose values are
  strings, written as an association list in the order of the file; or holding valid
  JSON of another shape.
\<close>

datatype token_file =
    NoFile
  | Unreadable error
  | Stored "(string \<times> string) list"
  | OtherJson

text \<open>What \<open>open("token_map.json", "w")\<close> and \<open>json.dump\<close> do: write the dictionary, or
  raise and leave the file in some state.\<close>

datatype write_outcome = Written | WriteRaises error token_file

text \<open>The service: its key, \<open>self.token_map\<close> (declared \<open>Dict[str, str]\<close>; a dictionary is
  an association list in insertion order), and the file.\<close>

record PrivacyService =
  secret_key :: string
  token_map :: "(string \<times> string) list"
  token_file :: token_file

text \<open>One entity of \<open>doc.ents\<close>: \<open>ent.text\<close>, \<open>ent.start_char\<close>, \<open>ent.end_char\<close>, \<open>ent.label_\<close>.\<close>

record ner_ent =
  ent_text :: string
  start_char :: int
  end_char :: int
  label :: string

text \<open>
  What the service takes from outside: \<open>str.lower\<close>;
  \<open>hmac.new(key, msg, hashlib.sha256).hexdigest()\<close>; the spaCy pipeline \<open>nlp\<close> (\<open>None\<close>
  when the model is not installed; a call may raise); \<open>pattern.finditer(text)\<close> for the
  compiled pattern of an entity type, as the list of \<open>(match.start(), match.end())\<close>; and
  what a write of the token file does, given the file and the dictionary to write.
\<close>

record capabilities =
  str_lower :: "string \<Rightarrow> string"
  hmac_sha256_hex :: "string \<Rightarrow> string \<Rightarrow> string"
  nlp :: "(string \<Rightarrow> error + ner_ent list) option"
  finditer :: "EntityType \<Rightarrow> string \<Rightarrow> (int \<times> int) list"
  write_token_file :: "token_file \<Rightarrow> (string \<times> string) list \<Rightarrow> write_outcome"

subsection \<open>Strings\<close>

text \<open>Python slices \<open>s[:i]\<close> and \<open>s[i:]\<close>: a negative index counts from the end, and
  indices beyond either end are clamped.\<close>

definition slice_to :: "'a list \<Rightarrow> int \<Rightarrow> 'a list" where
  "slice_to s i = (if i < 0 then take (nat (int (length s) + i)) s else take (nat i) s)"

definition slice_from :: "'a list \<Rightarrow> int \<Rightarrow> 'a list" where
  "slice_from s i = (if i < 0 then drop (nat (int (length s) + i)) s else drop (nat i) s)"

definition slice :: "'a list \<Rightarrow> int \<Rightarrow> int \<Rightarrow> 'a list" where
  "slice s i j = slice_from (slice_to s j) (if i < 0 then max 0 (int (length s) + i) else i)"

subsection \<open>Loops that an exception leaves\<close>

text \<open>
  A stateful method returns the service as it leaves it together with its value or the
  exception it raises. \<open>for_each\<close> is a \<open>for\<close> loop over a list whose body updates the
  service and an accumulator: the first exception ends the loop, with the service as
  the body left it.
\<close>

fun for_each ::
  "('x \<Rightarrow> PrivacyService \<Rightarrow> 'a \<Rightarrow> PrivacyService \<times> (error + 'a)) \<Rightarrow>
   'x list \<Rightarrow> PrivacyService \<Rightarrow> 'a \<Rightarrow> PrivacyService \<times> (error + 'a)" where
  "for_each body [] s acc = (s, Inr acc)"
| "for_each body (x # xs) s acc =
     (case body x s acc of
        (s', Inl e) \<Rightarrow> (s', Inl e)
      | (s', Inr acc') \<Rightarrow> for_each body xs s' acc')"

section \<open>Token vault\<close>

definition save_token_map :: "capabilities \<Rightarrow> PrivacyService \<Rightarrow> PrivacyService \<times> error option" where
  "save_token_map ext s =
     (case write_token_file ext (token_file s) (token_map s) of
        Written \<Rightarrow> (s\<lparr>token_file := Stored (token_map s)\<rparr>, None)
      | WriteRaises e left \<Rightarrow> (s\<lparr>token_file := left\<rparr>, Some e))"

text \<open>
  What construction gives when it does not raise: a service, or, when the file holds
  valid JSON that is not a dictionary of strings, an object whose \<open>token_map\<close> is that
  value, against its declared type; only its key is recorded.
\<close>

datatype constructed = Service PrivacyService | IllTyped string

definition load_token_map :: "PrivacyService \<Rightarrow> error + constructed" where
  "load_token_map s =
     (case token_file s of
        NoFile \<Rightarrow> Inr (Service (s\<lparr>token_map := []\<rparr>))
      | Unreadable e \<Rightarrow> Inl e
      | Stored m \<Rightarrow> Inr (Service (s\<lparr>token_map := m\<rparr>))
      | OtherJson \<Rightarrow> Inr (IllTyped (secret_key s)))"

definition generate_deterministic_token ::
  "capabilities \<Rightarrow> PrivacyService \<Rightarrow> string \<Rightarrow> EntityType \<Rightarrow> string" where
  "generate_deterministic_token ext s original_text et =
     (let message = entity_value et @ '':'' @ str_lower ext original_text;
          token = take 8 (hmac_sha256_hex ext (secret_key s) message)
      in ''<'' @ entity_value et @ '':'' @ token @ ''>'')"

text \<open>The entry is put in \<open>self.token_map\<close> before the file is written: when the write
  raises, the entry stays in memory and the exception goes to the caller.\<close>

definition get_or_create_replacement ::
  "capabilities \<Rightarrow> PrivacyService \<Rightarrow> string \<Rightarrow> EntityType \<Rightarrow>
   PrivacyService \<times> (error + string)" where
  "get_or_create_replacement ext s original_text et =
     (let key = entity_value et @ '':'' @ str_lower ext original_text
      in case map_of (token_map s) key of
           None \<Rightarrow>
             (let tok = generate_deterministic_token ext s original_text et
              in case save_token_map ext (s\<lparr>token_map := token_map s @ [(key, tok)]\<rparr>) of
                   (s', Some e) \<Rightarrow> (s', Inl e)
                 | (s', None) \<Rightarrow> (s', Inr tok))
         | Some stored \<Rightarrow> (s, Inr stored))"

section \<open>Span resolver\<close>

definition overlaps :: "SensitiveSpan \<Rightarrow> SensitiveSpan \<Rightarrow> bool" where
  "overlaps entity added \<longleftrightarrow>
     span_start entity < span_end added \<and> span_end entity > span_start added"

text \<open>The body of the outer loop: the inner loop looks for a kept span that overlaps.\<close>

definition keep_step :: "SensitiveSpan \<Rightarrow> SensitiveSpan list \<Rightarrow> SensitiveSpan list" where
  "keep_step entity filtered =
     (if list_ex (overlaps entity) filtered then filtered else filtered @ [entity])"

definition sort_entities :: "SensitiveSpan list \<Rightarrow> SensitiveSpan list" where
  "sort_entities entities = sort_key (\<lambda>x. (span_start x, - confidence x)) entities"

definition remove_overlapping_entities :: "SensitiveSpan list \<Rightarrow> SensitiveSpan list" where
  "remove_overlapping_entities entities =
     (if entities = [] then entities
      else fold keep_step (sort_entities entities) [])"

section \<open>Format-preserving substitution\<close>

text \<open>\<open>re.sub(r'\D', '', text)\<close> keeps the digits; \<open>int(d)\<close> and \<open>str(n)\<close> on one digit.\<close>

definition is_digit :: "char \<Rightarrow> bool" where
  "is_digit c \<longleftrightarrow> c \<in> set ''0123456789''"

definition digit_int :: "char \<Rightarrow> nat" where
  "digit_int d =
     (case map_of (zip ''0123456789'' [0, 1, 2, 3, 4, 5, 6, 7, 8, 9]) d of
        Some n \<Rightarrow> n | None \<Rightarrow> 0)"

definition digit_str :: "nat \<Rightarrow> char" where
  "digit_str n = ''0123456789'' ! (n mod 10)"

definition shift_digits :: "nat \<Rightarrow> string \<Rightarrow> string" where
  "shift_digits k digits = map (\<lambda>d. digit_str ((digit_int d + k) mod 10)) digits"

text \<open>\<open>[encrypted[i:i+4] for i in range(0, len(encrypted), 4)]\<close> and \<open>'-'.join\<close>.\<close>

fun chunks4 :: "string \<Rightarrow> string list" where
  "chunks4 [] = []"
| "chunks4 (c # cs) = take 4 (c # cs) # chunks4 (drop 4 (c # cs))"

fun join :: "string \<Rightarrow> string list \<Rightarrow> string" where
  "join sep [] = []"
| "join sep [x] = x"
| "join sep (x # y # zs) = x @ sep @ join sep (y # zs)"

definition apply_format_preserving_encryption ::
  "capabilities \<Rightarrow> PrivacyService \<Rightarrow> string \<Rightarrow> EntityType \<Rightarrow> string" where
  "apply_format_preserving_encryption ext s text et =
     (let digits = filter is_digit text in
      if et = PHONE \<and> length digits = 10 then
        (let encrypted = shift_digits 3 digits
         in ''('' @ take 3 encrypted @ '') '' @ take 3 (drop 3 encrypted) @ ''-'' @ drop 6 encrypted)
      else if et = CREDIT_CARD \<and> length digits \<ge> 13 then
        (let encrypted = shift_digits 2 digits
         in join ''-'' (chunks4 encrypted))
      else if et = SSN \<and> length digits = 9 then
        (let encrypted = shift_digits 1 digits
         in take 3 encrypted @ ''-'' @ take 2 (drop 3 encrypted) @ ''-'' @ drop 5 encrypted)
      else generate_deterministic_token ext s text et)"

section \<open>Detection\<close>

record privacy_config =
  entities :: "EntityType list"
  confidence_threshold :: real

fun privacy_configs :: "PrivacyLevel \<Rightarrow> privacy_config" where
  "privacy_configs MINIMAL =
     \<lparr>entities = [EMAIL, PHONE, CREDIT_CARD, SSN], confidence_threshold = 0.8\<rparr>"
| "privacy_configs STANDARD =
     \<lparr>entities = [PERSON, EMAIL, PHONE, CREDIT_CARD, SSN, ADDRESS, ORGANIZATION],
      confidence_threshold = 0.7\<rparr>"
| "privacy_configs STRICT =
     \<lparr>entities = all_entity_types, confidence_threshold = 0.6\<rparr>"

text \<open>The keys of \<open>self.patterns\<close>, in the order the dictionary is written.\<close>

definition pattern_types :: "EntityType list" where
  "pattern_types = [EMAIL, PHONE, CREDIT_CARD, SSN, MONEY, PERCENT]"

text \<open>
  The body of the loop over \<open>doc.ents\<close>. The membership test of \<open>ent.label_\<close> in the values
  of the configured types and the conversion \<open>EntityType(ent.label_)\<close> are one lookup: the
  values are distinct, so the configured type with that value is the member the conversion gives.
\<close>

definition ner_step ::
  "capabilities \<Rightarrow> privacy_config \<Rightarrow> ner_ent \<Rightarrow> PrivacyService \<Rightarrow> SensitiveSpan list \<Rightarrow>
   PrivacyService \<times> (error + SensitiveSpan list)" where
  "ner_step ext config ent s found =
     (case find (\<lambda>e. entity_value e = label ent) (entities config) of
        None \<Rightarrow> (s, Inr found)
      | Some et \<Rightarrow>
          (let conf = 0.9 in
           if conf \<ge> confidence_threshold config then
             (case get_or_create_replacement ext s (ent_text ent) et of
                (s', Inl e) \<Rightarrow> (s', Inl e)
              | (s', Inr repl) \<Rightarrow>
                  (s', Inr (found @
                     [\<lparr>span_text = ent_text ent, span_start = start_char ent,
                       span_end = end_char ent, entity_type = et, confidence = conf,
                       replacement = repl\<rparr>])))
           else (s, Inr found)))"

text \<open>The body of the loop over the matches of one pattern; \<open>match.group()\<close> is the
  matched slice of the text.\<close>

definition match_step ::
  "capabilities \<Rightarrow> string \<Rightarrow> EntityType \<Rightarrow> int \<times> int \<Rightarrow> PrivacyService \<Rightarrow>
   SensitiveSpan list \<Rightarrow> PrivacyService \<times> (error + SensitiveSpan list)" where
  "match_step ext text et m s found =
     (let original_text = slice text (fst m) (snd m)
      in case get_or_create_replacement ext s original_text et of
           (s', Inl e) \<Rightarrow> (s', Inl e)
         | (s', Inr repl) \<Rightarrow>
             (s', Inr (found @
                [\<lparr>span_text = original_text, span_start = fst m, span_end = snd m,
                  entity_type = et, confidence = 0.95, replacement = repl\<rparr>])))"

definition pattern_step ::
  "capabilities \<Rightarrow> privacy_config \<Rightarrow> string \<Rightarrow> EntityType \<Rightarrow> PrivacyService \<Rightarrow>
   SensitiveSpan list \<Rightarrow> PrivacyService \<times> (error + SensitiveSpan list)" where
  "pattern_step ext config text et s found =
     (if et \<in> set (entities config)
      then for_each (match_step ext text et) (finditer ext et text) s found
      else (s, Inr found))"

text \<open>Steps 1 and 2 of \<open>detect_sensitive_entities\<close>: the candidate spans, before overlaps
  are removed.\<close>

definition collect_entities ::
  "capabilities \<Rightarrow> PrivacyService \<Rightarrow> string \<Rightarrow> PrivacyLevel \<Rightarrow>
   PrivacyService \<times> (error + SensitiveSpan list)" where
  "collect_entities ext s text level =
     (let config = privacy_configs level in
      case nlp ext of
        None \<Rightarrow> for_each (pattern_step ext config text) pattern_types s []
      | Some tagger \<Rightarrow>
          (case tagger text of
             Inl e \<Rightarrow> (s, Inl e)
           | Inr ents \<Rightarrow>
               (case for_each (ner_step ext config) ents s [] of
                  (s', Inl e) \<Rightarrow> (s', Inl e)
                | (s', Inr found) \<Rightarrow>
                    for_each (pattern_step ext config text) pattern_types s' found)))"

definition detect_sensitive_entities ::
  "capabilities \<Rightarrow> PrivacyService \<Rightarrow> string \<Rightarrow> PrivacyLevel \<Rightarrow>
   PrivacyService \<times> (error + SensitiveSpan list)" where
  "detect_sensitive_entities ext s text level =
     (case collect_entities ext s text level of
        (s', Inl e) \<Rightarrow> (s', Inl e)
      | (s', Inr found) \<Rightarrow> (s', Inr (remove_overlapping_entities found)))"

section \<open>Sanitizer\<close>

record audit_entry =
  original :: string
  audit_replacement :: string
  audit_entity_type :: string
  audit_confidence :: real
  position_start :: int
  position_end :: int

text \<open>\<open>entities.sort(key=lambda x: x.start, reverse=True)\<close>: the list is reversed, sorted
  stably in ascending order and reversed again, so equal keys keep their order.\<close>

definition sort_reverse_start :: "SensitiveSpan list \<Rightarrow> SensitiveSpan list" where
  "sort_reverse_start es = rev (sort_key span_start (rev es))"

definition choose_replacement ::
  "capabilities \<Rightarrow> PrivacyService \<Rightarrow> bool \<Rightarrow> SensitiveSpan \<Rightarrow> string" where
  "choose_replacement ext s preserve_format entity =
     (if preserve_format \<and> entity_type entity \<in> set [PHONE, CREDIT_CARD, SSN]
      then apply_format_preserving_encryption ext s (span_text entity) (entity_type entity)
      else replacement entity)"

text \<open>The body of the replacement loop, on the text so far and the audit list so far.\<close>

definition replace_step ::
  "capabilities \<Rightarrow> PrivacyService \<Rightarrow> bool \<Rightarrow> SensitiveSpan \<Rightarrow>
   string \<times> audit_entry list \<Rightarrow> string \<times> audit_entry list" where
  "replace_step ext s preserve_format entity acc =
     (let repl = choose_replacement ext s preserve_format entity;
          sanitized = fst acc
      in (slice_to sanitized (span_start entity) @ repl
            @ slice_from sanitized (span_end entity),
          snd acc @
            [\<lparr>original = span_text entity, audit_replacement = repl,
              audit_entity_type = entity_value (entity_type entity),
              audit_confidence = confidence entity,
              position_start = span_start entity, position_end = span_end entity\<rparr>]))"

text \<open>The result without \<open>processing_time\<close>, which is wall-clock time. The score is the
  source's expression over the reals.\<close>

record sanitize_result =
  sanitized_text :: string
  privacy_score :: real
  entities_found :: "audit_entry list"

text \<open>The second half of \<open>sanitize_text\<close>: the sort, the replacement loop and the score.\<close>

definition apply_replacements ::
  "capabilities \<Rightarrow> PrivacyService \<Rightarrow> bool \<Rightarrow> string \<Rightarrow> SensitiveSpan list \<Rightarrow>
   sanitize_result" where
  "apply_replacements ext s preserve_format text detected =
     (let sorted_entities = sort_reverse_start detected;
          (out, found) = fold (replace_step ext s preserve_format) sorted_entities (text, [])
      in \<lparr>sanitized_text = out,
          privacy_score = min 1 (real (length sorted_entities) * 0.1 + 0.5),
          entities_found = found\<rparr>)"

definition sanitize_text ::
  "capabilities \<Rightarrow> PrivacyService \<Rightarrow> string \<Rightarrow> PrivacyLevel \<Rightarrow> bool \<Rightarrow>
   PrivacyService \<times> (error + sanitize_result)" where
  "sanitize_text ext s text level preserve_format =
     (case detect_sensitive_entities ext s text level of
        (s', Inl e) \<Rightarrow> (s', Inl e)
      | (s', Inr detected) \<Rightarrow>
          (s', Inr (apply_replacements ext s' preserve_format text detected)))"

section \<open>Construction\<close>

text \<open>
  \<open>PrivacyService.__init__\<close>. Its inputs: the argument \<open>secret_key\<close>, the environment
  variable \<open>PRIVACY_SECRET_KEY\<close>, the value \<open>secrets.token_hex(32)\<close> draws (the default
  of \<open>os.getenv\<close>), and the token file. An empty argument is falsy for \<open>or\<close>.
\<close>

definition getenv_default :: "string option \<Rightarrow> string \<Rightarrow> string" where
  "getenv_default env_value dflt = (case env_value of Some v \<Rightarrow> v | None \<Rightarrow> dflt)"

definition PrivacyService_init ::
  "string option \<Rightarrow> string option \<Rightarrow> string \<Rightarrow> token_file \<Rightarrow> error + constructed" where
  "PrivacyService_init secret_key_arg env_value token_hex file =
     (let key = (case secret_key_arg of
                   Some k \<Rightarrow> if k \<noteq> [] then k else getenv_default env_value token_hex
                 | None \<Rightarrow> getenv_default env_value token_hex)
      in load_token_map \<lparr>secret_key = key, token_map = [], token_file = file\<rparr>)"

section \<open>Batch endpoints\<close>

text \<open>\<open>str(e)\<close> of the exceptions of the model; for the exceptions that carry no text
  here, the name stands for the message.\<close>

fun str_error :: "error \<Rightarrow> string" where
  "str_error JSONDecodeError = ''JSONDecodeError''"
| "str_error UnicodeDecodeError = ''UnicodeDecodeError''"
| "str_error IsADirectoryError = ''IsADirectoryError''"
| "str_error PermissionError = ''PermissionError''"
| "str_error (KeyError k) = [CHR 0x27] @ k @ [CHR 0x27]"
| "str_error (OtherError msg) = msg"
| "str_error (HTTPException code detail) = detail"

subsection \<open>privacy\_service.py: /batch-anonymize\<close>

record PrivacyRequest =
  req_text :: string
  req_privacy_level :: PrivacyLevel
  req_preserve_format :: bool

record PrivacyResponse =
  resp_sanitized_text :: string
  resp_privacy_score :: real
  resp_entities_found :: "audit_entry list"
  resp_privacy_level :: PrivacyLevel

text \<open>A result of the batch: a response, or the dictionary with the keys \<open>error\<close> and
  \<open>original_text\<close>.\<close>

datatype batch_item = Response PrivacyResponse | Failed string string

definition batch_step ::
  "capabilities \<Rightarrow> PrivacyRequest \<Rightarrow> PrivacyService \<times> batch_item list \<Rightarrow>
   PrivacyService \<times> batch_item list" where
  "batch_step ext request acc =
     (case sanitize_text ext (fst acc) (req_text request) (req_privacy_level request)
             (req_preserve_format request) of
        (s', Inr r) \<Rightarrow>
          (s', snd acc @
             [Response \<lparr>resp_sanitized_text = sanitized_text r,
                        resp_privacy_score = privacy_score r,
                        resp_entities_found = entities_found r,
                        resp_privacy_level = req_privacy_level request\<rparr>])
      | (s', Inl e) \<Rightarrow>
          (s', snd acc @ [Failed (''Failed to process: '' @ str_error e) (req_text request)]))"

definition batch_anonymize_text ::
  "capabilities \<Rightarrow> PrivacyService \<Rightarrow> PrivacyRequest list \<Rightarrow> PrivacyService \<times> batch_item list" where
  "batch_anonymize_text ext s requests = fold (batch_step ext) requests (s, [])"

subsection \<open>main.py: /batch-anonymize\<close>

text \<open>
  main.py passes the request's \<open>privacy_level\<close> string on; \<open>self.privacy_configs[privacy_level]\<close>
  finds the member whose value the string is (the enum is a \<open>str\<close>), and raises
  \<open>KeyError\<close> for any other string.
\<close>

fun level_value :: "PrivacyLevel \<Rightarrow> string" where
  "level_value MINIMAL = ''minimal''"
| "level_value STANDARD = ''standard''"
| "level_value STRICT = ''strict''"

definition sanitize_text_by_name ::
  "capabilities \<Rightarrow> PrivacyService \<Rightarrow> string \<Rightarrow> string \<Rightarrow> bool \<Rightarrow>
   PrivacyService \<times> (error + sanitize_result)" where
  "sanitize_text_by_name ext s text privacy_level preserve_format =
     (case find (\<lambda>l. level_value l = privacy_level) [MINIMAL, STANDARD, STRICT] of
        None \<Rightarrow> (s, Inl (KeyError privacy_level))
      | Some level \<Rightarrow> sanitize_text ext s text level preserve_format)"

record main_result =
  main_sanitized_text :: string
  main_privacy_score :: real
  main_entities_found :: "audit_entry list"
  main_privacy_level :: string
  main_error :: "string option"

definition main_batch_step ::
  "capabilities \<Rightarrow> string \<Rightarrow> string \<Rightarrow> PrivacyService \<times> main_result list \<Rightarrow>
   PrivacyService \<times> main_result list" where
  "main_batch_step ext privacy_level text acc =
     (case sanitize_text_by_name ext (fst acc) text privacy_level True of
        (s', Inr r) \<Rightarrow>
          (s', snd acc @
             [\<lparr>main_sanitized_text = sanitized_text r,
               main_privacy_score = privacy_score r,
               main_entities_found = entities_found r,
               main_privacy_level = privacy_level,
               main_error = None\<rparr>])
      | (s', Inl e) \<Rightarrow>
          (s', snd acc @
             [\<lparr>main_sanitized_text = text,
               main_privacy_score = 0,
               main_entities_found = [],
               main_privacy_level = privacy_level,
               main_error = Some (str_error e)\<rparr>]))"

text \<open>An empty \<open>texts\<close> raises the 400 inside the outer \<open>try\<close>, which re-raises it as a 500.\<close>

definition main_batch_anonymize_text ::
  "capabilities \<Rightarrow> PrivacyService \<Rightarrow> string list \<Rightarrow> string \<Rightarrow>
   PrivacyService \<times> (error + main_result list)" where
  "main_batch_anonymize_text ext s texts privacy_level =
     (if texts = [] then (s, Inl (HTTPException 500 ''400: Texts array is required''))
      else (case fold (main_batch_step ext privacy_level) texts (s, []) of
              (s', results) \<Rightarrow> (s', Inr results)))"

section \<open>Sequences of calls\<close>




section \<open>Notions used by the statements\<close>







text \<open>The cipher as the specification words it: every digit shifted by the amount of the
  type, every other character left where it is. And the pattern \<open>\d{3}-\d{3}-\d{4}\<close>,
  matched against a whole string and searched in one.\<close>

definition spec_substitution :: "nat \<Rightarrow> string \<Rightarrow> string" where
  "spec_substitution k v =
     map (\<lambda>c. if is_digit c then digit_str ((digit_int c + k) mod 10) else c) v"

definition matches_3_3_4 :: "string \<Rightarrow> bool" where
  "matches_3_3_4 v \<longleftrightarrow>
     length v = 12 \<and> list_all is_digit (take 3 v) \<and> take 1 (drop 3 v) = ''-''
     \<and> list_all is_digit (take 3 (drop 4 v)) \<and> take 1 (drop 7 v) = ''-''
     \<and> list_all is_digit (drop 8 v)"

definition search_3_3_4 :: "string \<Rightarrow> bool" where
  "search_3_3_4 v \<longleftrightarrow> list_ex (\<lambda>i. matches_3_3_4 (take 12 (drop i v))) [0..<length v]"

text \<open>A span lies in a text of length \<open>n\<close>.\<close>

definition in_text :: "nat \<Rightarrow> int \<Rightarrow> int \<Rightarrow> bool" where
  "in_text n a b \<longleftrightarrow> 0 \<le> a \<and> a \<le> b \<and> b \<le> int n"

section \<open>Example inputs\<close>

text \<open>\<open>str.lower\<close> on ASCII text: the letters \<open>A\<close> to \<open>Z\<close> change, nothing else does.\<close>

definition char_lower :: "char \<Rightarrow> char" where
  "char_lower c =
     (case map_of (zip ''ABCDEFGHIJKLMNOPQRSTUVWXYZ'' ''abcdefghijklmnopqrstuvwxyz'') c of
        Some l \<Rightarrow> l | None \<Rightarrow> c)"

definition ascii_lower :: "string \<Rightarrow> string" where
  "ascii_lower s = map char_lower s"

text \<open>A file system where every write succeeds, and one where every write fails on
  opening and leaves the file as it was.\<close>

definition always_written :: "token_file \<Rightarrow> (string \<times> string) list \<Rightarrow> write_outcome" where
  "always_written file m = Written"

definition read_only :: "token_file \<Rightarrow> (string \<times> string) list \<Rightarrow> write_outcome" where
  "read_only file m = WriteRaises PermissionError file"

text \<open>HMAC-SHA256 hex digests of the inputs listed, and a row of zeros elsewhere.\<close>

definition hmac_table :: "string \<Rightarrow> string \<Rightarrow> string" where
  "hmac_table key msg =
     (if key = ''secret'' \<and> msg = ''EMAIL:john@example.com''
        then ''af5635c6c27b12499455b96c18830b6d8fdc92d02ccab1f9dff5f18224f68bed''
      else if key = ''secret'' \<and> msg = ''PERSON:john doe''
        then ''622065b7f3b39d228e8fb83d06e486e43ecbe3adbe63d884bf2d184afa392572''
      else if key = ''secret'' \<and> msg = ''PHONE:555-123-4567''
        then ''bfd8b3845d76f3e39748ed8ce7276b1b9b6674d6f003b94cb72ae139872a4e6c''
      else if key = ''secret'' \<and> msg = ''EMAIL:a@b.co''
        then ''4cf56e5894fdd169ac71b16cf45d794be449bc3efbadd0644df6cc69fddc1859''
      else if key = ''secret'' \<and> msg = ''PHONE:5551234567''
        then ''faedf83f891b12192616572808563e3d35c6c1a4d7b891dd61802f9a556d83b7''
      else if key = ''secret'' \<and> msg = ''PHONE:5559876543''
        then ''832208553639529de78f02dd348eed6dc1035ea94c170fd6034c170a04c7056f''
      else if key = ''secret'' \<and> msg = ''MONEY:$55512345675559876543''
        then ''f72cad1e81f817ff0b5934d9202fa9afb834eb29969727803598c4c7df7a7047''
      else if key = ''secret'' \<and> msg = ''MONEY:$5551234567''
        then ''5aa6a08d167a077d309e83e13ab9a2786f94fd661b2293ae1a6007822604f0d1''
      else if key = ''other'' \<and> msg = ''EMAIL:john@example.com''
        then ''f905f35cebfeebd80a4624eb579297a12a4331ac5a02d847e8cb98fd2cab2a65''
      else replicate 64 (CHR ''0''))"

definition example_text :: string where
  "example_text =
     ''John Doe'' @ [CHR 0x27] @ ''s email is john@example.com and phone is 555-123-4567''"

text \<open>What \<open>finditer\<close> gives for the patterns of \<open>self.patterns\<close> on the texts used below.\<close>

definition re_table :: "EntityType \<Rightarrow> string \<Rightarrow> (int \<times> int) list" where
  "re_table et text =
     (if text = example_text then
        (if et = EMAIL then [(20, 36)] else if et = PHONE then [(50, 62)] else [])
      else if text = ''$55512345675559876543'' then
        (if et = PHONE then [(1, 11), (11, 21)] else if et = MONEY then [(0, 21)] else [])
      else if text = ''$5551234567'' then
        (if et = PHONE then [(1, 11)] else if et = MONEY then [(0, 11)] else [])
      else if text = ''a@b.co'' then
        (if et = EMAIL then [(0, 6)] else [])
      else if text = ''Call 555-123-4567'' then
        (if et = PHONE then [(5, 17)] else [])
      else [])"

text \<open>A tagger that finds the person of the example text and raises on one text.\<close>

definition tagger_table :: "string \<Rightarrow> error + ner_ent list" where
  "tagger_table text =
     (if text = ''<unparseable>'' then Inl (OtherError ''tagger failed'')
      else if text = example_text then
        Inr [\<lparr>ent_text = ''John Doe'', start_char = 0, end_char = 8, label = ''PERSON''\<rparr>]
      else Inr [])"

definition example_capabilities :: capabilities where
  "example_capabilities =
     \<lparr>str_lower = ascii_lower, hmac_sha256_hex = hmac_table, nlp = Some tagger_table,
      finditer = re_table, write_token_file = always_written\<rparr>"


definition example_service :: PrivacyService where
  "example_service = \<lparr>secret_key = ''secret'', token_map = [], token_file = NoFile\<rparr>"


definition example_span :: "int \<Rightarrow> int \<Rightarrow> EntityType \<Rightarrow> real \<Rightarrow> SensitiveSpan" where
  "example_span a b et c =
     \<lparr>span_text = slice ''$123-45-6789'' a b, span_start = a, span_end = b,
      entity_type = et, confidence = c, replacement = []\<rparr>"

text \<open>A value for \<open>secrets.token_hex(32)\<close>: 64 hexadecimal characters.\<close>

definition drawn_key :: string where
  "drawn_key = ''9f2c4e1ab07d35c6e8f1a2b3c4d5e6f7081929a3b4c5d6e7f8091a2b3c4d5e6f''"





section \<open>The span resolver keeps disjoint spans\<close>

lemma fold_keep_step_disjoint:
  "sorted_wrt (\<lambda>a b. \<not> overlaps b a) acc \<Longrightarrow>
   sorted_wrt (\<lambda>a b. \<not> overlaps b a) (fold keep_step es acc)"
proof (induction es arbitrary: acc)
  case Nil
  then show ?case by simp
next
  case (Cons e es)
  have "sorted_wrt (\<lambda>a b. \<not> overlaps b a) (keep_step e acc)"
    using Cons.prems by (auto simp: keep_step_def sorted_wrt_append list_ex_iff)
  then show ?case using Cons.IH by simp
qed

lemma remove_overlapping_sorted_wrt:
  "sorted_wrt (\<lambda>a b. \<not> overlaps b a) (remove_overlapping_entities es)"
  using fold_keep_step_disjoint [of "[]" "sort_entities es"]
  by (simp add: remove_overlapping_entities_def)

text \<open>
  C2. Whatever list of candidate spans the resolver is given, no two spans of its output,
  at positions \<open>i < j\<close>, satisfy \<open>a.start < b.end\<close> and \<open>b.start < a.end\<close>.
\<close>

theorem remove_overlapping_entities_disjoint:
  "\<forall>i j. i < j \<and> j < length (remove_overlapping_entities es) \<longrightarrow>
     \<not> (span_start (remove_overlapping_entities es ! i)
            < span_end (remove_overlapping_entities es ! j)
        \<and> span_start (remove_overlapping_entities es ! j)
            < span_end (remove_overlapping_entities es ! i))"
  using remove_overlapping_sorted_wrt [of es]
  unfolding sorted_wrt_iff_nth_less overlaps_def by auto

theorem remove_overlapping_entities_disjoint_witness:
  "(0::nat) < 1
   \<and> 1 < length (remove_overlapping_entities
         [example_span 4 12 DATE 0.9, example_span 1 12 SSN 0.95, example_span 0 4 MONEY 0.95])
   \<and> \<not> (span_start (remove_overlapping_entities
         [example_span 4 12 DATE 0.9, example_span 1 12 SSN 0.95, example_span 0 4 MONEY 0.95] ! 0)
        < span_end (remove_overlapping_entities
         [example_span 4 12 DATE 0.9, example_span 1 12 SSN 0.95, example_span 0 4 MONEY 0.95] ! 1)
      \<and> span_start (remove_overlapping_entities
         [example_span 4 12 DATE 0.9, example_span 1 12 SSN 0.95, example_span 0 4 MONEY 0.95] ! 1)
        < span_end (remove_overlapping_entities
         [example_span 4 12 DATE 0.9, example_span 1 12 SSN 0.95, example_span 0 4 MONEY 0.95] ! 0))"
proof -
  let ?es = "[example_span 4 12 DATE 0.9, example_span 1 12 SSN 0.95, example_span 0 4 MONEY 0.95]"
  have len: "length (remove_overlapping_entities ?es) = 2"
    by (simp add: remove_overlapping_entities_def sort_entities_def keep_step_def overlaps_def
        example_span_def)
  from remove_overlapping_entities_disjoint [of ?es] len show ?thesis by simp
qed

section \<open>Token derivation and the vault\<close>









lemma save_token_map_written:
  "snd (save_token_map ext s) = None \<Longrightarrow>
   token_file (fst (save_token_map ext s)) = Stored (token_map s)"
  by (simp add: save_token_map_def split: write_outcome.splits)

lemma save_token_map_result:
  "(snd (save_token_map ext s) = None)
     = (write_token_file ext (token_file s) (token_map s) = Written)"
  by (simp add: save_token_map_def split: write_outcome.splits)














section \<open>Construction without a secret key\<close>

text \<open>
  C8, amended. With no \<open>secret_key\<close> argument (or an empty one) and \<open>PRIVACY_SECRET_KEY\<close>
  unset, construction does not fail on that account: the object constructed has the value
  \<open>secrets.token_hex(32)\<close> draws as its key. With the variable set, its value is the key.
  An exception that construction raises comes from reading the token file, and is the
  same whatever key is configured.
\<close>

theorem construction_without_key:
  "(case PrivacyService_init None None token_hex file of
      Inl e \<Rightarrow> PrivacyService_init (Some configured) env_value other_hex file = Inl e
    | Inr (Service s) \<Rightarrow> secret_key s = token_hex
    | Inr (IllTyped key) \<Rightarrow> key = token_hex)
   \<and> PrivacyService_init (Some []) None token_hex file
       = PrivacyService_init None None token_hex file
   \<and> (case PrivacyService_init None (Some env_key) token_hex file of
        Inl e \<Rightarrow> PrivacyService_init None None token_hex file = Inl e
      | Inr (Service s) \<Rightarrow> secret_key s = env_key
      | Inr (IllTyped key) \<Rightarrow> key = env_key)"
  by (simp add: PrivacyService_init_def getenv_default_def load_token_map_def
      split: token_file.splits)

text \<open>No key, no variable, no token file: a service with the drawn key.\<close>

theorem missing_key_counterexample:
  "PrivacyService_init None None drawn_key NoFile
     = Inr (Service \<lparr>secret_key = drawn_key, token_map = [], token_file = NoFile\<rparr>)"
  by (simp add: PrivacyService_init_def getenv_default_def load_token_map_def)

section \<open>Format-preserving substitution: layout and digits\<close>

lemma below_ten:
  "(m::nat) < 10 \<Longrightarrow>
   m = 0 \<or> m = 1 \<or> m = 2 \<or> m = 3 \<or> m = 4 \<or> m = 5 \<or> m = 6 \<or> m = 7 \<or> m = 8 \<or> m = 9"
  by arith

lemma is_digit_digit_str: "is_digit (digit_str n)"
proof -
  have "n mod 10 < 10" by simp
  from below_ten [OF this] show ?thesis
    by (auto simp: is_digit_def digit_str_def)
qed

lemma digit_int_digit_str: "digit_int (digit_str n) = n mod 10"
proof -
  have "n mod 10 < 10" by simp
  from below_ten [OF this] show ?thesis
    by (auto simp: digit_int_def digit_str_def)
qed

lemma shift_digits_all_digits: "list_all is_digit (shift_digits k ds)"
  by (simp add: shift_digits_def list_all_iff is_digit_digit_str)

lemma shift_digits_values:
  "map digit_int (shift_digits k ds) = map (\<lambda>d. (digit_int d + k) mod 10) ds"
  by (simp add: shift_digits_def digit_int_digit_str)

lemma length_shift_digits: "length (shift_digits k ds) = length ds"
  by (simp add: shift_digits_def)

lemma concat_chunks4: "concat (chunks4 xs) = xs"
  by (induction xs rule: chunks4.induct) simp_all

lemma chunks4_lengths: "g \<in> set (chunks4 xs) \<Longrightarrow> 1 \<le> length g \<and> length g \<le> 4"
  by (induction xs rule: chunks4.induct) auto

lemma chunks4_butlast: "g \<in> set (butlast (chunks4 xs)) \<Longrightarrow> length g = 4"
proof (induction xs rule: chunks4.induct)
  case 1
  then show ?case by simp
next
  case (2 c cs)
  show ?case
  proof (cases "chunks4 (drop 4 (c # cs)) = []")
    case True
    with 2 show ?thesis by simp
  next
    case False
    then have "drop 4 (c # cs) \<noteq> []" by auto
    then have "length (take 4 (c # cs)) = 4" by auto
    with 2 False show ?thesis by auto
  qed
qed

text \<open>
  C3, amended. With \<open>preserve_format\<close> the cipher writes the shifted digits in the fixed
  layout of the entity type, not in the layout of the input: a PHONE of 10 digits becomes
  \<open>(ddd) ddd-dddd\<close> with every digit shifted by 3 modulo 10, a CREDIT\_CARD of 13 digits
  or more becomes groups of four digits (the last one may be shorter) joined by \<open>-\<close> with
  every digit shifted by 2, and an SSN of 9 digits becomes \<open>ddd-dd-dddd\<close> with every digit
  shifted by 1. The separators of the input are dropped. A PHONE, CREDIT\_CARD or SSN
  value whose digit count does not fit, and a value of any other type, gets the
  deterministic token.
\<close>

theorem fpe_canonical_layout:
  "(length (filter is_digit p) = 10 \<longrightarrow>
      (\<exists>a b c. apply_format_preserving_encryption ext s p PHONE
                  = ''('' @ a @ '') '' @ b @ ''-'' @ c
         \<and> length a = 3 \<and> length b = 3 \<and> length c = 4
         \<and> list_all is_digit (a @ b @ c)
         \<and> map digit_int (a @ b @ c)
             = map (\<lambda>d. (digit_int d + 3) mod 10) (filter is_digit p)))
   \<and> (length (filter is_digit c) \<ge> 13 \<longrightarrow>
      (\<exists>gs. apply_format_preserving_encryption ext s c CREDIT_CARD = join ''-'' gs
         \<and> (\<forall>g \<in> set (butlast gs). length g = 4)
         \<and> (\<forall>g \<in> set gs. 1 \<le> length g \<and> length g \<le> 4)
         \<and> list_all is_digit (concat gs)
         \<and> map digit_int (concat gs)
             = map (\<lambda>d. (digit_int d + 2) mod 10) (filter is_digit c)))
   \<and> (length (filter is_digit n) = 9 \<longrightarrow>
      (\<exists>a b c. apply_format_preserving_encryption ext s n SSN = a @ ''-'' @ b @ ''-'' @ c
         \<and> length a = 3 \<and> length b = 2 \<and> length c = 4
         \<and> list_all is_digit (a @ b @ c)
         \<and> map digit_int (a @ b @ c)
             = map (\<lambda>d. (digit_int d + 1) mod 10) (filter is_digit n)))
   \<and> (length (filter is_digit q) \<noteq> 10 \<longrightarrow>
      apply_format_preserving_encryption ext s q PHONE
        = generate_deterministic_token ext s q PHONE)
   \<and> (length (filter is_digit r) < 13 \<longrightarrow>
      apply_format_preserving_encryption ext s r CREDIT_CARD
        = generate_deterministic_token ext s r CREDIT_CARD)
   \<and> (length (filter is_digit u) \<noteq> 9 \<longrightarrow>
      apply_format_preserving_encryption ext s u SSN
        = generate_deterministic_token ext s u SSN)
   \<and> (et \<notin> {PHONE, CREDIT_CARD, SSN} \<longrightarrow>
      apply_format_preserving_encryption ext s v et
        = generate_deterministic_token ext s v et)"
proof (intro conjI impI)
  assume len: "length (filter is_digit p) = 10"
  let ?e = "shift_digits 3 (filter is_digit p)"
  have split: "take 3 ?e @ take 3 (drop 3 ?e) @ drop 6 ?e = ?e"
    by (metis append_take_drop_id drop_drop numeral_Bit0 numeral_Bit1 add.commute
        one_add_one numeral_plus_numeral semiring_norm(2) semiring_norm(5))
  show "\<exists>a b c. apply_format_preserving_encryption ext s p PHONE
                  = ''('' @ a @ '') '' @ b @ ''-'' @ c
         \<and> length a = 3 \<and> length b = 3 \<and> length c = 4
         \<and> list_all is_digit (a @ b @ c)
         \<and> map digit_int (a @ b @ c)
             = map (\<lambda>d. (digit_int d + 3) mod 10) (filter is_digit p)"
    apply (rule exI [of _ "take 3 ?e"])
    apply (rule exI [of _ "take 3 (drop 3 ?e)"])
    apply (rule exI [of _ "drop 6 ?e"])
    unfolding split
    using len
    by (simp add: apply_format_preserving_encryption_def Let_def length_shift_digits
        shift_digits_all_digits shift_digits_values)
next
  assume len: "13 \<le> length (filter is_digit c)"
  let ?e = "shift_digits 2 (filter is_digit c)"
  show "\<exists>gs. apply_format_preserving_encryption ext s c CREDIT_CARD = join ''-'' gs
         \<and> (\<forall>g \<in> set (butlast gs). length g = 4)
         \<and> (\<forall>g \<in> set gs. 1 \<le> length g \<and> length g \<le> 4)
         \<and> list_all is_digit (concat gs)
         \<and> map digit_int (concat gs)
             = map (\<lambda>d. (digit_int d + 2) mod 10) (filter is_digit c)"
    apply (rule exI [of _ "chunks4 ?e"])
    unfolding concat_chunks4
    using len
    by (auto simp: apply_format_preserving_encryption_def Let_def chunks4_butlast
        shift_digits_all_digits shift_digits_values dest: chunks4_lengths)
next
  assume len: "length (filter is_digit n) = 9"
  let ?e = "shift_digits 1 (filter is_digit n)"
  have split: "take 3 ?e @ take 2 (drop 3 ?e) @ drop 5 ?e = ?e"
    by (metis append_take_drop_id drop_drop numeral_Bit0 numeral_Bit1 add.commute
        one_add_one numeral_plus_numeral semiring_norm(2) semiring_norm(5))
  show "\<exists>a b c. apply_format_preserving_encryption ext s n SSN = a @ ''-'' @ b @ ''-'' @ c
         \<and> length a = 3 \<and> length b = 2 \<and> length c = 4
         \<and> list_all is_digit (a @ b @ c)
         \<and> map digit_int (a @ b @ c)
             = map (\<lambda>d. (digit_int d + 1) mod 10) (filter is_digit n)"
    apply (rule exI [of _ "take 3 ?e"])
    apply (rule exI [of _ "take 2 (drop 3 ?e)"])
    apply (rule exI [of _ "drop 5 ?e"])
    unfolding split
    using len
    by (simp add: apply_format_preserving_encryption_def Let_def length_shift_digits
        shift_digits_all_digits shift_digits_values)
next
  assume "length (filter is_digit q) \<noteq> 10"
  then show "apply_format_preserving_encryption ext s q PHONE
        = generate_deterministic_token ext s q PHONE"
    by (simp add: apply_format_preserving_encryption_def)
next
  assume "length (filter is_digit r) < 13"
  then show "apply_format_preserving_encryption ext s r CREDIT_CARD
        = generate_deterministic_token ext s r CREDIT_CARD"
    by (simp add: apply_format_preserving_encryption_def)
next
  assume "length (filter is_digit u) \<noteq> 9"
  then show "apply_format_preserving_encryption ext s u SSN
        = generate_deterministic_token ext s u SSN"
    by (simp add: apply_format_preserving_encryption_def)
next
  assume "et \<notin> {PHONE, CREDIT_CARD, SSN}"
  then show "apply_format_preserving_encryption ext s v et
        = generate_deterministic_token ext s v et"
    by (simp add: apply_format_preserving_encryption_def)
qed

theorem fpe_canonical_layout_witness:
  "length (filter is_digit ''555-123-4567'') = 10
   \<and> 13 \<le> length (filter is_digit ''4532-1234-5678-9012'')
   \<and> length (filter is_digit ''123-45-6789'') = 9
   \<and> length (filter is_digit ''+1 555-123-4567'') \<noteq> 10
   \<and> length (filter is_digit ''4532-1234'') < 13
   \<and> length (filter is_digit ''123-45-678'') \<noteq> 9
   \<and> EMAIL \<notin> {PHONE, CREDIT_CARD, SSN}
   \<and> (\<exists>a b c. apply_format_preserving_encryption example_capabilities example_service
                  ''555-123-4567'' PHONE = ''('' @ a @ '') '' @ b @ ''-'' @ c
         \<and> length a = 3 \<and> length b = 3 \<and> length c = 4)
   \<and> (\<exists>gs. apply_format_preserving_encryption example_capabilities example_service
                  ''4532-1234-5678-9012'' CREDIT_CARD = join ''-'' gs
         \<and> (\<forall>g \<in> set (butlast gs). length g = 4))
   \<and> (\<exists>a b c. apply_format_preserving_encryption example_capabilities example_service
                  ''123-45-6789'' SSN = a @ ''-'' @ b @ ''-'' @ c
         \<and> length a = 3 \<and> length b = 2 \<and> length c = 4)
   \<and> apply_format_preserving_encryption example_capabilities example_service
        ''+1 555-123-4567'' PHONE
       = generate_deterministic_token example_capabilities example_service
           ''+1 555-123-4567'' PHONE
   \<and> apply_format_preserving_encryption example_capabilities example_service
        ''4532-1234'' CREDIT_CARD
       = generate_deterministic_token example_capabilities example_service
           ''4532-1234'' CREDIT_CARD
   \<and> apply_format_preserving_encryption example_capabilities example_service
        ''123-45-678'' SSN
       = generate_deterministic_token example_capabilities example_service ''123-45-678'' SSN
   \<and> apply_format_preserving_encryption example_capabilities example_service
        ''john@example.com'' EMAIL
       = generate_deterministic_token example_capabilities example_service
           ''john@example.com'' EMAIL"
proof -
  have h1: "length (filter is_digit ''555-123-4567'') = 10"
    by (simp add: is_digit_def)
  have h2: "13 \<le> length (filter is_digit ''4532-1234-5678-9012'')"
    by (simp add: is_digit_def)
  have h3: "length (filter is_digit ''123-45-6789'') = 9"
    by (simp add: is_digit_def)
  have h4: "length (filter is_digit ''+1 555-123-4567'') \<noteq> 10"
    by (simp add: is_digit_def)
  have h5: "length (filter is_digit ''4532-1234'') < 13"
    by (simp add: is_digit_def)
  have h6: "length (filter is_digit ''123-45-678'') \<noteq> 9"
    by (simp add: is_digit_def)
  have h7: "EMAIL \<notin> {PHONE, CREDIT_CARD, SSN}" by simp
  from fpe_canonical_layout
         [where p = "''555-123-4567''" and ext = example_capabilities and s = example_service
            and c = "''4532-1234-5678-9012''" and n = "''123-45-6789''"
            and q = "''+1 555-123-4567''" and r = "''4532-1234''" and u = "''123-45-678''"
            and et = EMAIL and v = "''john@example.com''"]
    h1 h2 h3 h4 h5 h6 h7
  show ?thesis by blast
qed

text \<open>The spec's example: the output is \<open>(888) 456-7890\<close>, where keeping the separators
  would give \<open>888-456-7890\<close>, and it does not match \<open>\d{3}-\d{3}-\d{4}\<close>.\<close>

theorem separators_counterexample:
  "apply_format_preserving_encryption example_capabilities example_service ''555-123-4567'' PHONE
     = ''(888) 456-7890''
   \<and> spec_substitution 3 ''555-123-4567'' = ''888-456-7890''
   \<and> \<not> matches_3_3_4 ''(888) 456-7890''
   \<and> \<not> search_3_3_4 ''(888) 456-7890''"
  by (simp add: apply_format_preserving_encryption_def is_digit_def shift_digits_def
      digit_int_def digit_str_def spec_substitution_def matches_3_3_4_def search_3_3_4_def)

section \<open>The order of the resolver and the tie on confidence\<close>

lemma keep_step_keeps: "set filtered \<subseteq> set (keep_step e filtered)"
  by (auto simp: keep_step_def)

lemma keep_step_subset: "set (keep_step e filtered) \<subseteq> insert e (set filtered)"
  by (auto simp: keep_step_def)

lemma set_keep_step:
  "set (keep_step e filtered) =
     (if list_ex (overlaps e) filtered then set filtered else insert e (set filtered))"
  by (simp add: keep_step_def)

lemma fold_keep_step_subset: "set (fold keep_step es acc) \<subseteq> set acc \<union> set es"
proof (induction es arbitrary: acc)
  case Nil
  then show ?case by simp
next
  case (Cons e es)
  show ?case using Cons.IH [of "keep_step e acc"] keep_step_subset [of e acc] by auto
qed

lemma sorted_entities_sorted:
  "sorted (map (\<lambda>x. (span_start x, - confidence x)) (sort_entities es))"
  by (simp add: sort_entities_def)

lemma set_sort_entities: "set (sort_entities es) = set es"
  by (simp add: sort_entities_def)

text \<open>A span of the sorted list is kept, or a kept span that sorts no later overlaps it.\<close>

lemma kept_or_overlapped:
  "sorted (map (\<lambda>x. (span_start x, - confidence x)) L) \<Longrightarrow> x \<in> set L \<Longrightarrow>
   x \<in> set (fold keep_step L []) \<or>
   (\<exists>w \<in> set (fold keep_step L []). overlaps x w
      \<and> (span_start w, - confidence w) \<le> (span_start x, - confidence x))"
proof (induction L rule: rev_induct)
  case Nil
  then show ?case by simp
next
  case (snoc y L)
  let ?A = "fold keep_step L []"
  have srt: "sorted (map (\<lambda>x. (span_start x, - confidence x)) L)"
    and le: "\<forall>z \<in> set L. (span_start z, - confidence z) \<le> (span_start y, - confidence y)"
    using snoc.prems(1) by (auto simp: sorted_append)
  have res: "fold keep_step (L @ [y]) [] = keep_step y ?A" by simp
  have sub: "set ?A \<subseteq> set L" using fold_keep_step_subset [of L "[]"] by simp
  show ?case
  proof (cases "x \<in> set L")
    case True
    from snoc.IH [OF srt True] keep_step_keeps [of ?A y] show ?thesis
      unfolding res by blast
  next
    case False
    then have xy: "x = y" using snoc.prems(2) by simp
    show ?thesis
    proof (cases "list_ex (overlaps y) ?A")
      case True
      then obtain w where w: "w \<in> set ?A" "overlaps y w" by (auto simp: list_ex_iff)
      with sub le have "(span_start w, - confidence w) \<le> (span_start y, - confidence y)"
        by blast
      with w True show ?thesis unfolding res xy by (auto simp: keep_step_def)
    next
      case False
      then show ?thesis unfolding res xy by (simp add: keep_step_def)
    qed
  qed
qed

text \<open>A kept span overlapped no span kept before it.\<close>

lemma kept_was_free:
  "y \<in> set (fold keep_step L []) \<Longrightarrow>
   \<exists>pre post. L = pre @ y # post \<and> \<not> list_ex (overlaps y) (fold keep_step pre [])"
proof (induction L rule: rev_induct)
  case Nil
  then show ?case by simp
next
  case (snoc z L)
  let ?A = "fold keep_step L []"
  show ?case
  proof (cases "y \<in> set ?A")
    case True
    from snoc.IH [OF True] obtain pre post
      where "L = pre @ y # post" "\<not> list_ex (overlaps y) (fold keep_step pre [])" by blast
    then have "L @ [z] = pre @ y # (post @ [z])
        \<and> \<not> list_ex (overlaps y) (fold keep_step pre [])" by simp
    then show ?thesis by blast
  next
    case False
    have "y \<in> set (keep_step z ?A)" using snoc.prems by simp
    with False have "y = z \<and> \<not> list_ex (overlaps z) ?A"
      by (auto simp: set_keep_step split: if_splits)
    then have "L @ [z] = L @ y # [] \<and> \<not> list_ex (overlaps y) (fold keep_step L [])" by simp
    then show ?thesis by blast
  qed
qed

lemma lower_confidence_discarded:
  assumes X: "X \<in> set es" and Y: "Y \<in> set es"
    and st: "span_start X = span_start Y" and cf: "confidence Y < confidence X"
    and ov: "overlaps X Y"
  shows "Y \<notin> set (remove_overlapping_entities es)"
proof
  assume "Y \<in> set (remove_overlapping_entities es)"
  then have "Y \<in> set (fold keep_step (sort_entities es) [])"
    using X by (auto simp: remove_overlapping_entities_def split: if_splits)
  from kept_was_free [OF this] obtain pre post
    where L: "sort_entities es = pre @ Y # post"
      and free: "\<not> list_ex (overlaps Y) (fold keep_step pre [])" by blast
  let ?k = "\<lambda>x. (span_start x, - confidence x)"
  have srt: "sorted (map ?k (pre @ Y # post))"
    using sorted_entities_sorted [of es] L by simp
  then have pre_sorted: "sorted (map ?k pre)"
    and post_ge: "\<forall>z \<in> set post. ?k Y \<le> ?k z"
    by (auto simp: sorted_append)
  have kXY: "\<not> ?k Y \<le> ?k X" using st cf by simp
  have "X \<in> set (pre @ Y # post)" using X L set_sort_entities [of es] by simp
  moreover have "X \<noteq> Y" using cf by auto
  moreover have "X \<notin> set post" using post_ge kXY by blast
  ultimately have "X \<in> set pre" by simp
  from kept_or_overlapped [OF pre_sorted this]
  show False
  proof
    assume "X \<in> set (fold keep_step pre [])"
    moreover have "overlaps Y X" using ov st by (auto simp: overlaps_def)
    ultimately show False using free by (auto simp: list_ex_iff)
  next
    assume "\<exists>w \<in> set (fold keep_step pre []). overlaps X w \<and> ?k w \<le> ?k X"
    then obtain w where w: "w \<in> set (fold keep_step pre [])" "overlaps X w" "?k w \<le> ?k X"
      by blast
    from w(3) have "span_start w \<le> span_start X" by (auto simp: less_eq_prod_def)
    with w(2) ov st have "overlaps Y w" by (auto simp: overlaps_def)
    with w(1) free show False by (auto simp: list_ex_iff)
  qed
qed

lemma first_in_order_kept:
  assumes X: "X \<in> set es"
    and first: "\<forall>Z \<in> set es. Z \<noteq> X \<and> overlaps X Z \<longrightarrow>
       span_start X < span_start Z
       \<or> (span_start X = span_start Z \<and> confidence Z < confidence X)"
  shows "X \<in> set (remove_overlapping_entities es)"
proof -
  let ?k = "\<lambda>x. (span_start x, - confidence x)"
  have ne: "es \<noteq> []" using X by auto
  have "X \<in> set (sort_entities es)" using X by (simp add: set_sort_entities)
  from kept_or_overlapped [OF sorted_entities_sorted this]
  have "X \<in> set (fold keep_step (sort_entities es) [])"
  proof
    assume "X \<in> set (fold keep_step (sort_entities es) [])"
    then show ?thesis .
  next
    assume "\<exists>w \<in> set (fold keep_step (sort_entities es) []). overlaps X w \<and> ?k w \<le> ?k X"
    then obtain w where w: "w \<in> set (fold keep_step (sort_entities es) [])"
      "overlaps X w" "?k w \<le> ?k X" by blast
    have "w \<in> set es"
      using w(1) fold_keep_step_subset [of "sort_entities es" "[]"] set_sort_entities [of es]
      by auto
    have "w = X"
    proof (rule ccontr)
      assume "w \<noteq> X"
      with first \<open>w \<in> set es\<close> w(2)
      have "span_start X < span_start w
        \<or> (span_start X = span_start w \<and> confidence w < confidence X)" by blast
      with w(3) show False by (auto simp: less_eq_prod_def)
    qed
    with w(1) show ?thesis by simp
  qed
  then show ?thesis using ne by (simp add: remove_overlapping_entities_def)
qed

text \<open>
  C5, amended. The resolver sorts the candidates by ascending start and, on equal starts,
  by descending confidence. Of two overlapping candidates with the same start, the one of
  lower confidence (0.9 against 0.95) is always discarded. The one of higher confidence
  is retained when every other candidate that overlaps it sorts after it (a later start,
  or the same start and a lower confidence), which is so when the two are the only
  candidates; a span kept earlier that overlaps it discards it too.
\<close>

theorem tie_break_on_confidence:
  assumes "X \<in> set es" and "Y \<in> set es"
    and "span_start X = span_start Y" and "confidence Y < confidence X"
    and "span_start X < span_end Y \<and> span_start Y < span_end X"
  shows "sorted_wrt (\<lambda>a b. span_start a < span_start b
                      \<or> (span_start a = span_start b \<and> confidence b \<le> confidence a))
           (sort_entities es)
     \<and> mset (sort_entities es) = mset es
     \<and> Y \<notin> set (remove_overlapping_entities es)
     \<and> ((\<forall>Z \<in> set es. Z \<noteq> X \<and> overlaps X Z \<longrightarrow>
            span_start X < span_start Z
            \<or> (span_start X = span_start Z \<and> confidence Z < confidence X))
          \<longrightarrow> X \<in> set (remove_overlapping_entities es))
     \<and> remove_overlapping_entities [X, Y] = [X]
     \<and> remove_overlapping_entities [Y, X] = [X]"
proof (intro conjI)
  have ov: "overlaps X Y" and ov': "overlaps Y X"
    using assms(3,5) by (auto simp: overlaps_def)
  have "sorted_wrt (\<lambda>a b. (span_start a, - confidence a) \<le> (span_start b, - confidence b))
          (sort_entities es)"
    using sorted_entities_sorted [of es] by (simp add: sorted_map)
  then show "sorted_wrt (\<lambda>a b. span_start a < span_start b
                      \<or> (span_start a = span_start b \<and> confidence b \<le> confidence a))
           (sort_entities es)"
    by (rule sorted_wrt_mono_rel [rotated]) (auto simp: less_eq_prod_def)
  show "mset (sort_entities es) = mset es"
    by (simp add: sort_entities_def)
  show "Y \<notin> set (remove_overlapping_entities es)"
    using assms(1,2,3,4) ov by (rule lower_confidence_discarded)
  show "(\<forall>Z \<in> set es. Z \<noteq> X \<and> overlaps X Z \<longrightarrow>
            span_start X < span_start Z
            \<or> (span_start X = span_start Z \<and> confidence Z < confidence X))
          \<longrightarrow> X \<in> set (remove_overlapping_entities es)"
    using first_in_order_kept [OF assms(1)] by blast
  show "remove_overlapping_entities [X, Y] = [X]"
    using assms(3,4) ov'
    by (simp add: remove_overlapping_entities_def sort_entities_def keep_step_def)
  show "remove_overlapping_entities [Y, X] = [X]"
    using assms(3,4) ov'
    by (simp add: remove_overlapping_entities_def sort_entities_def keep_step_def)
qed

theorem tie_break_on_confidence_witness:
  "example_span 1 12 SSN 0.95 \<in> set [example_span 1 12 DATE 0.9, example_span 1 12 SSN 0.95]
   \<and> example_span 1 12 DATE 0.9 \<in> set [example_span 1 12 DATE 0.9, example_span 1 12 SSN 0.95]
   \<and> span_start (example_span 1 12 SSN 0.95) = span_start (example_span 1 12 DATE 0.9)
   \<and> confidence (example_span 1 12 DATE 0.9) < confidence (example_span 1 12 SSN 0.95)
   \<and> span_start (example_span 1 12 SSN 0.95) < span_end (example_span 1 12 DATE 0.9)
   \<and> span_start (example_span 1 12 DATE 0.9) < span_end (example_span 1 12 SSN 0.95)
   \<and> example_span 1 12 DATE 0.9 \<notin> set (remove_overlapping_entities
         [example_span 1 12 DATE 0.9, example_span 1 12 SSN 0.95])
   \<and> example_span 1 12 SSN 0.95 \<in> set (remove_overlapping_entities
         [example_span 1 12 DATE 0.9, example_span 1 12 SSN 0.95])
   \<and> remove_overlapping_entities [example_span 1 12 DATE 0.9, example_span 1 12 SSN 0.95]
       = [example_span 1 12 SSN 0.95]"
proof -
  let ?X = "example_span 1 12 SSN 0.95" and ?Y = "example_span 1 12 DATE 0.9"
  have h1: "?X \<in> set [?Y, ?X]" and h2: "?Y \<in> set [?Y, ?X]" by simp_all
  have h3: "span_start ?X = span_start ?Y" by (simp add: example_span_def)
  have h4: "confidence ?Y < confidence ?X" by (simp add: example_span_def)
  have h5: "span_start ?X < span_end ?Y \<and> span_start ?Y < span_end ?X"
    by (simp add: example_span_def)
  have h6: "\<forall>Z \<in> set [?Y, ?X]. Z \<noteq> ?X \<and> overlaps ?X Z \<longrightarrow>
            span_start ?X < span_start Z
            \<or> (span_start ?X = span_start Z \<and> confidence Z < confidence ?X)"
    by (simp add: example_span_def)
  from tie_break_on_confidence [OF h1 h2 h3 h4 h5] h1 h2 h3 h4 h5 h6
  show ?thesis by blast
qed

text \<open>Three candidates of \<open>$123-45-6789\<close>: the MONEY span is kept first and discards both
  spans that start at 1, the SSN span of confidence 0.95 included.\<close>

theorem higher_confidence_counterexample:
  "remove_overlapping_entities
     [example_span 1 12 DATE 0.9, example_span 1 12 SSN 0.95, example_span 0 4 MONEY 0.95]
     = [example_span 0 4 MONEY 0.95]
   \<and> example_span 1 12 SSN 0.95 \<notin> set (remove_overlapping_entities
        [example_span 1 12 DATE 0.9, example_span 1 12 SSN 0.95, example_span 0 4 MONEY 0.95])"
  by (simp add: remove_overlapping_entities_def sort_entities_def keep_step_def overlaps_def
      example_span_def)

section \<open>Loops and the growth of the vault\<close>















section \<open>Detection fills the vault\<close>









section \<open>Determinism of sanitization across calls\<close>





















end
